theory Spec2Isabelle
  imports Complex_Main "HOL-Library.Multiset"
begin

section \<open>The table of elements\<close>

text \<open>
  The notebook \<^verbatim>\<open>examples/pgvector/pgvector.ipynb\<close> declares one table,
  \<^verbatim>\<open>unstructured_elements\<close>, through the class \<^verbatim>\<open>Element\<close>. Its vector column
  has the fixed dimension \<^verbatim>\<open>ADA_TOKEN_COUNT = 1536\<close>.

  Floating-point columns and vector components are modelled as real numbers and a
  \<^verbatim>\<open>DateTime\<close> value as a count of microseconds. A column that the notebook may
  leave unset is an \<open>option\<close>, with \<open>None\<close> for SQL's NULL.
\<close>

definition ADA_TOKEN_COUNT :: nat where
  "ADA_TOKEN_COUNT = 1536"

record Element =
  id' :: "int option"
  embedding :: "real list"
  text' :: string
  category :: string
  filename :: "string option"
  date :: "int option"
  sent_to :: "string list option"
  sent_from :: "string list option"
  subject :: "string option"

datatype error = StoreError | PartitionError

section \<open>Ingestion\<close>

text \<open>
  \<^verbatim>\<open>
  elements = []
  for f in os.listdir(EXAMPLE_DOCS_DIRECTORY):
      if not f.endswith(".eml"):
          continue
      filename = os.path.join(EXAMPLE_DOCS_DIRECTORY, f)
      elements.extend(partition_email(filename=filename))
  \<close>
  The directory listing is an input, and so is the partitioning function, which either
  raises or returns a list of elements. An exception ends the loop, since the notebook
  catches nothing.
\<close>

definition endswith :: "string \<Rightarrow> string \<Rightarrow> bool" where
  "endswith s suffix \<longleftrightarrow>
     length suffix \<le> length s \<and> drop (length s - length suffix) s = suffix"

definition startswith :: "string \<Rightarrow> string \<Rightarrow> bool" where
  "startswith s prefix \<longleftrightarrow> take (length prefix) s = prefix"

definition path_join :: "string \<Rightarrow> string \<Rightarrow> string" where
  \<comment> \<open>\<^verbatim>\<open>posixpath.join\<close> of two components\<close>
  "path_join a b =
     (if startswith b ''/'' then b
      else if a = [] \<or> endswith a ''/'' then a @ b
      else a @ ''/'' @ b)"

fun ingest_loop ::
  "(string \<Rightarrow> error + 'e list) \<Rightarrow> string \<Rightarrow> string \<Rightarrow> string list \<Rightarrow> 'e list \<Rightarrow> error + 'e list"
where
  "ingest_loop partition_email dir ext [] elements = Inr elements"
| "ingest_loop partition_email dir ext (f # fs) elements =
     (if \<not> endswith f ext then ingest_loop partition_email dir ext fs elements
      else (case partition_email (path_join dir f) of
              Inl err \<Rightarrow> Inl err
            | Inr es \<Rightarrow> ingest_loop partition_email dir ext fs (elements @ es)))"

definition ingest ::
  "(string \<Rightarrow> error + 'e list) \<Rightarrow> string \<Rightarrow> string \<Rightarrow> string list \<Rightarrow> error + 'e list"
where
  "ingest partition_email dir ext listing = ingest_loop partition_email dir ext listing []"

definition EXAMPLE_DOCS_DIRECTORY :: string where
  "EXAMPLE_DOCS_DIRECTORY = ''../../example-docs''"

section \<open>Persistence\<close>

text \<open>
  The store is the table's rows in insertion order and the sequence behind the
  \<^verbatim>\<open>id\<close> column (\<^verbatim>\<open>Column(Integer, primary_key=True)\<close>). An insert fails when the
  embedding does not have the column's dimension (\<^verbatim>\<open>Vector(ADA_TOKEN_COUNT)\<close>) or
  when the primary key is already taken. \<^verbatim>\<open>session.add_all(items_to_add)\<close> followed by
  \<^verbatim>\<open>session.commit()\<close> writes all rows in one transaction: either every row is
  stored, or the commit raises and the table is as it was.
\<close>

record store =
  rows :: "Element list"
  next_id :: int

definition empty_store :: store where
  "empty_store = \<lparr>rows = [], next_id = 1\<rparr>"

definition insert_row :: "store \<Rightarrow> Element \<Rightarrow> error + store" where
  \<comment> \<open>Modelled from the spec: the notebook only declares the column types; what an
      insert does with a vector of another dimension is the store's part, which the
      spec words as "inserting a vector of wrong dimensionality fails with a store
      error".\<close>
  "insert_row s e =
     (if length (embedding e) \<noteq> ADA_TOKEN_COUNT then Inl StoreError
      else (case id' e of
              None \<Rightarrow>
                if Some (next_id s) \<in> set (map id' (rows s)) then Inl StoreError
                else Inr \<lparr>rows = rows s @ [e\<lparr>id' := Some (next_id s)\<rparr>],
                          next_id = next_id s + 1\<rparr>
            | Some i \<Rightarrow>
                if Some i \<in> set (map id' (rows s)) then Inl StoreError
                else Inr \<lparr>rows = rows s @ [e], next_id = next_id s\<rparr>))"

fun insert_rows :: "store \<Rightarrow> Element list \<Rightarrow> error + store" where
  "insert_rows s [] = Inr s"
| "insert_rows s (e # es) =
     (case insert_row s e of Inl err \<Rightarrow> Inl err | Inr s' \<Rightarrow> insert_rows s' es)"

definition add_all_commit :: "store \<Rightarrow> Element list \<Rightarrow> error option \<times> store" where
  "add_all_commit s items =
     (case insert_rows s items of Inl err \<Rightarrow> (Some err, s) | Inr s' \<Rightarrow> (None, s'))"

text \<open>The stores the notebook can reach: the empty table, then any number of commits.\<close>

inductive reachable :: "store \<Rightarrow> bool" where
  initial: "reachable empty_store"
| commit: "reachable s \<Longrightarrow> add_all_commit s items = (r, s') \<Longrightarrow> reachable s'"

definition get_by_id :: "store \<Rightarrow> int \<Rightarrow> Element option" where
  \<comment> \<open>Modelled from the spec: the notebook has no query by primary key; the spec's
      round trip ("retrieving by id") reads the row whose \<^verbatim>\<open>id\<close> is the given one.\<close>
  "get_by_id s i = find (\<lambda>r. id' r = Some i) (rows s)"

section \<open>Retrieval\<close>

text \<open>
  \<^verbatim>\<open>embedding.l2_distance(vector)\<close> is the Euclidean distance of two vectors. The query
  vector is bound with the column's type, so a vector of another dimension is refused
  before any row is read.
\<close>

definition l2_distance :: "real list \<Rightarrow> real list \<Rightarrow> real" where
  "l2_distance a b = sqrt (\<Sum>(x, y)\<leftarrow>zip a b. (x - y)\<^sup>2)"

text \<open>
  \<^verbatim>\<open>ORDER BY\<close> returns the rows in some order that is sorted by the key; which of two
  rows with equal keys comes first is left to the database. \<open>order_by le xs ys\<close> says
  that \<open>ys\<close> is such an order of \<open>xs\<close>.
\<close>

definition order_by :: "('a \<Rightarrow> 'a \<Rightarrow> bool) \<Rightarrow> 'a list \<Rightarrow> 'a list \<Rightarrow> bool" where
  "order_by le xs ys \<longleftrightarrow> mset ys = mset xs \<and> sorted_wrt le ys"

text \<open>One such order, computed: insertion sort that keeps rows with equal keys in table order.\<close>

fun insert_by :: "('a \<Rightarrow> 'a \<Rightarrow> bool) \<Rightarrow> 'a \<Rightarrow> 'a list \<Rightarrow> 'a list" where
  "insert_by le x [] = [x]"
| "insert_by le x (y # ys) = (if le x y then x # y # ys else y # insert_by le x ys)"

definition sort_by :: "('a \<Rightarrow> 'a \<Rightarrow> bool) \<Rightarrow> 'a list \<Rightarrow> 'a list" where
  "sort_by le xs = foldr (insert_by le) xs []"

subsection \<open>Filtered nearest neighbours\<close>

text \<open>
  \<^verbatim>\<open>
  query = (
      session.query(Element)
      .filter(Element.category == "NarrativeText")
      .order_by(Element.embedding.l2_distance(vector))
      .limit(5)
  )
  for element in query:
      print(element.id, element.text)
  \<close>
  The category, the query vector and the limit are parameters here.
\<close>

definition nearer :: "real list \<Rightarrow> Element \<Rightarrow> Element \<Rightarrow> bool" where
  "nearer q a b \<longleftrightarrow> l2_distance (embedding a) q \<le> l2_distance (embedding b) q"

inductive filtered_nn ::
  "string \<Rightarrow> real list \<Rightarrow> nat \<Rightarrow> store \<Rightarrow> error + Element list \<Rightarrow> bool"
  for c :: string and q :: "real list" and k :: nat and s :: store
where
  refused: "length q \<noteq> ADA_TOKEN_COUNT \<Longrightarrow> filtered_nn c q k s (Inl StoreError)"
| returned:
    "length q = ADA_TOKEN_COUNT \<Longrightarrow>
     order_by (nearer q) (filter (\<lambda>e. category e = c) (rows s)) ys \<Longrightarrow>
     filtered_nn c q k s (Inr (take k ys))"

definition filtered_nn_stable ::
  "string \<Rightarrow> real list \<Rightarrow> nat \<Rightarrow> store \<Rightarrow> error + Element list"
where
  "filtered_nn_stable c q k s =
     (if length q \<noteq> ADA_TOKEN_COUNT then Inl StoreError
      else Inr (take k (sort_by (nearer q) (filter (\<lambda>e. category e = c) (rows s)))))"

subsection \<open>Decayed nearest neighbours\<close>

text \<open>
  \<^verbatim>\<open>
  query = (
      session.query(
          Element,
          Element.text,
          func.exp(
              text(f"-{decay_rate} * EXTRACT(DAY FROM (NOW() - date))")
              * Element.embedding.l2_distance(vector)
          ).label("decay_score"),
      )
      .order_by(text("decay_score DESC"))
      .limit(5)
  )
  for element in query:
      print(f"{element.decay_score} -  {element.text}")
  \<close>
  The difference of two timestamps is an interval of days and a time of day with the
  same sign; \<^verbatim>\<open>EXTRACT(DAY FROM ...)\<close> is its whole number of days, rounded towards
  zero. The distance is a factor inside the argument of \<^verbatim>\<open>func.exp\<close>. A NULL date
  makes every expression above it NULL.
\<close>

definition usecs_per_day :: int where
  "usecs_per_day = 86400000000"

definition extract_day :: "int \<Rightarrow> int" where
  "extract_day iv = (if 0 \<le> iv then iv div usecs_per_day else - ((- iv) div usecs_per_day))"

definition age_days :: "int \<Rightarrow> Element \<Rightarrow> int option" where
  "age_days now e = (case date e of None \<Rightarrow> None | Some d \<Rightarrow> Some (extract_day (now - d)))"

definition decay_expr :: "real \<Rightarrow> int \<Rightarrow> real \<Rightarrow> real" where
  "decay_expr rate days distance = exp ((- rate * real_of_int days) * distance)"

definition decay_score :: "real \<Rightarrow> int \<Rightarrow> real list \<Rightarrow> Element \<Rightarrow> real option" where
  "decay_score rate now q e =
     (case age_days now e of
        None \<Rightarrow> None
      | Some days \<Rightarrow> Some (decay_expr rate days (l2_distance (embedding e) q)))"

definition decay_rate :: real where
  "decay_rate = 0.10"

text \<open>
  The score as the text around the query words it, "we multiply the distance metric by a
  decay function with an exponential decay rate", and as the specification has it:
  \<open>exp (- \<lambda> \<cdot> age_days) \<cdot> d\<close>.
\<close>

definition spec_decay_expr :: "real \<Rightarrow> int \<Rightarrow> real \<Rightarrow> real" where
  "spec_decay_expr rate days distance = exp (- rate * real_of_int days) * distance"

definition spec_decay_score :: "real \<Rightarrow> int \<Rightarrow> real list \<Rightarrow> Element \<Rightarrow> real option" where
  "spec_decay_score rate now q e =
     (case age_days now e of
        None \<Rightarrow> None
      | Some days \<Rightarrow> Some (spec_decay_expr rate days (l2_distance (embedding e) q)))"

text \<open>\<^verbatim>\<open>ORDER BY decay_score DESC\<close>: larger scores first, and NULL before every number.\<close>

definition desc_nulls_first :: "real option \<Rightarrow> real option \<Rightarrow> bool" where
  "desc_nulls_first a b =
     (case a of None \<Rightarrow> True | Some x \<Rightarrow> (case b of None \<Rightarrow> False | Some y \<Rightarrow> y \<le> x))"

type_synonym decayed_row = "Element \<times> string \<times> real option"

definition decayed_select :: "real \<Rightarrow> int \<Rightarrow> real list \<Rightarrow> Element \<Rightarrow> decayed_row" where
  "decayed_select rate now q e = (e, text' e, decay_score rate now q e)"

definition higher :: "decayed_row \<Rightarrow> decayed_row \<Rightarrow> bool" where
  "higher a b \<longleftrightarrow> desc_nulls_first (snd (snd a)) (snd (snd b))"

inductive decayed_nn ::
  "real \<Rightarrow> int \<Rightarrow> real list \<Rightarrow> nat \<Rightarrow> store \<Rightarrow> error + decayed_row list \<Rightarrow> bool"
  for rate :: real and now :: int and q :: "real list" and k :: nat and s :: store
where
  refused: "length q \<noteq> ADA_TOKEN_COUNT \<Longrightarrow> decayed_nn rate now q k s (Inl StoreError)"
| returned:
    "length q = ADA_TOKEN_COUNT \<Longrightarrow>
     order_by higher (map (decayed_select rate now q) (rows s)) ys \<Longrightarrow>
     decayed_nn rate now q k s (Inr (take k ys))"

definition decayed_nn_stable ::
  "real \<Rightarrow> int \<Rightarrow> real list \<Rightarrow> nat \<Rightarrow> store \<Rightarrow> error + decayed_row list"
where
  "decayed_nn_stable rate now q k s =
     (if length q \<noteq> ADA_TOKEN_COUNT then Inl StoreError
      else Inr (take k (sort_by higher (map (decayed_select rate now q) (rows s)))))"

subsection \<open>Printing the results\<close>

text \<open>
  A printed line is the list of the values it shows. The first loop prints the
  identifier and the text of each row, the second the score and the text.
\<close>

datatype cell = Ident "int option" | Text string | Score "real option"

fun print_filtered :: "Element list \<Rightarrow> cell list list \<Rightarrow> cell list list" where
  "print_filtered [] out = out"
| "print_filtered (element # rest) out =
     print_filtered rest (out @ [[Ident (id' element), Text (text' element)]])"

fun print_decayed :: "decayed_row list \<Rightarrow> cell list list \<Rightarrow> cell list list" where
  "print_decayed [] out = out"
| "print_decayed (element # rest) out =
     print_decayed rest (out @ [[Score (snd (snd element)), Text (fst (snd element))]])"

text \<open>The line the specification describes: identifier, text and score.\<close>

definition spec_line :: "int option \<Rightarrow> string \<Rightarrow> real option \<Rightarrow> cell list" where
  "spec_line i t sc = [Ident i, Text t, Score sc]"

section \<open>Invariant of the store\<close>

text \<open>
  Primary keys are set and pairwise different, and every stored embedding has the
  column's dimension.
\<close>

definition store_inv :: "store \<Rightarrow> bool" where
  "store_inv s \<longleftrightarrow>
     distinct (map id' (rows s)) \<and> None \<notin> set (map id' (rows s)) \<and>
     list_all (\<lambda>e. length (embedding e) = ADA_TOKEN_COUNT) (rows s)"

section \<open>Example data\<close>

text \<open>
  Vectors of the column's dimension that differ in their first component only, and five
  elements with the categories and the distances from \<open>unit_vec 0\<close> of the
  specification's end-to-end scenario. Their dates are: now, three days ago, none,
  twelve hours ago, and ten days ahead.
\<close>

definition unit_vec :: "real \<Rightarrow> real list" where
  "unit_vec x = x # replicate 1535 0"

definition example_now :: int where
  "example_now = 1700000000000000"

definition example_element :: "int option \<Rightarrow> real \<Rightarrow> string \<Rightarrow> int option \<Rightarrow> Element" where
  "example_element i x c d =
     \<lparr>id' = i, embedding = unit_vec x, text' = ''Violets are blue'', category = c,
      filename = Some ''fake-email.eml'', date = d, sent_to = Some [''a@example.com''],
      sent_from = Some [''b@example.com''], subject = Some ''Test Email''\<rparr>"

definition example_items :: "Element list" where
  "example_items =
     [example_element None (1/10) ''NarrativeText'' (Some example_now),
      example_element None (1/2) ''NarrativeText'' (Some (example_now - 3 * usecs_per_day)),
      example_element None (1/20) ''Other'' None,
      example_element None (3/10) ''NarrativeText'' (Some (example_now - 43200000000)),
      example_element None (1/5) ''Other'' (Some (example_now + 10 * usecs_per_day))]"

definition example_store :: store where
  "example_store = snd (add_all_commit empty_store example_items)"

definition bad_element :: Element where
  "bad_element = (example_element None 0 ''NarrativeText'' None)\<lparr>embedding := [1, 2, 3]\<rparr>"

text \<open>
  A directory listing and a partitioning function that raises on every path that does
  not end in \<^verbatim>\<open>.eml\<close>.
\<close>

definition example_listing :: "string list" where
  "example_listing = [''a.eml'', ''notes.txt'', ''b.eml'', ''eml'', ''c.eml'']"

definition example_output :: "string \<Rightarrow> string list" where
  "example_output path =
     (if path = ''../../example-docs/a.eml'' then [''Roses are red'', ''Violets are blue'']
      else if path = ''../../example-docs/c.eml'' then [''It includes:'']
      else [])"

definition example_partition :: "string \<Rightarrow> error + string list" where
  "example_partition path =
     (if endswith path ''.eml'' then Inr (example_output path) else Inl PartitionError)"

section \<open>Distances and orders\<close>

lemma l2_distance_nonneg: "0 \<le> l2_distance a b"
  unfolding l2_distance_def
  by (rule real_sqrt_ge_zero, rule sum_list_nonneg) auto

lemma l2_distance_self: "l2_distance a a = 0"
proof -
  have "(\<Sum>(x, y)\<leftarrow>zip a a. (x - y)\<^sup>2) = 0"
    by (induction a) simp_all
  then show ?thesis by (simp add: l2_distance_def)
qed

lemma mset_insert_by: "mset (insert_by le x ys) = add_mset x (mset ys)"
  by (induction ys) simp_all

lemma set_insert_by: "set (insert_by le x ys) = insert x (set ys)"
  by (induction ys) auto

lemma sorted_wrt_insert_by:
  assumes total: "\<And>a b. le a b \<or> le b a"
    and trans: "\<And>a b c. le a b \<Longrightarrow> le b c \<Longrightarrow> le a c"
    and "sorted_wrt le ys"
  shows "sorted_wrt le (insert_by le x ys)"
  using assms(3)
proof (induction ys)
  case Nil
  then show ?case by simp
next
  case (Cons y ys)
  show ?case
  proof (cases "le x y")
    case True
    with Cons.prems show ?thesis by (auto intro: trans)
  next
    case False
    then have "le y x" using total by blast
    with False Cons show ?thesis by (auto simp: set_insert_by)
  qed
qed

lemma order_by_sort_by:
  assumes total: "\<And>a b. le a b \<or> le b a"
    and trans: "\<And>a b c. le a b \<Longrightarrow> le b c \<Longrightarrow> le a c"
  shows "order_by le xs (sort_by le xs)"
proof -
  have "mset (foldr (insert_by le) xs []) = mset xs \<and> sorted_wrt le (foldr (insert_by le) xs [])"
    by (induction xs) (simp_all add: mset_insert_by sorted_wrt_insert_by [OF total trans])
  then show ?thesis by (simp add: order_by_def sort_by_def)
qed

lemma order_by_nearer: "order_by (nearer q) xs (sort_by (nearer q) xs)"
  by (rule order_by_sort_by) (auto simp: nearer_def)

lemma order_by_higher: "order_by higher xs (sort_by higher xs)"
  by (rule order_by_sort_by) (auto simp: higher_def desc_nulls_first_def split: option.splits)

lemma filtered_nn_stable_possible: "filtered_nn c q k s (filtered_nn_stable c q k s)"
  unfolding filtered_nn_stable_def
  by (auto intro: filtered_nn.intros order_by_nearer)

lemma decayed_nn_stable_possible: "decayed_nn rate now q k s (decayed_nn_stable rate now q k s)"
  unfolding decayed_nn_stable_def
  by (auto intro: decayed_nn.intros order_by_higher)

lemma filtered_nn_InrE:
  assumes "filtered_nn c q k s (Inr res)"
  obtains ys where "length q = ADA_TOKEN_COUNT"
    and "order_by (nearer q) (filter (\<lambda>e. category e = c) (rows s)) ys"
    and "res = take k ys"
  using assms by (cases rule: filtered_nn.cases) auto

lemma decayed_nn_InrE:
  assumes "decayed_nn rate now q k s (Inr res)"
  obtains ys where "length q = ADA_TOKEN_COUNT"
    and "order_by higher (map (decayed_select rate now q) (rows s)) ys"
    and "res = take k ys"
  using assms by (cases rule: decayed_nn.cases) auto

lemma order_by_set: "order_by le xs ys \<Longrightarrow> set ys = set xs"
  by (auto simp: order_by_def dest: mset_eq_setD)

lemma order_by_length: "order_by le xs ys \<Longrightarrow> length ys = length xs"
  by (auto simp: order_by_def dest: mset_eq_length)

lemma decayed_nn_rows:
  assumes "decayed_nn rate now q k s (Inr rs)" and "r \<in> set rs"
  shows "\<exists>e \<in> set (rows s). r = decayed_select rate now q e"
proof -
  from assms(1) obtain ys where ys: "order_by higher (map (decayed_select rate now q) (rows s)) ys"
    and rs: "rs = take k ys"
    by (rule decayed_nn_InrE)
  from assms(2) rs have "r \<in> set ys" by (auto dest: in_set_takeD)
  with order_by_set [OF ys] show ?thesis by auto
qed

section \<open>The example store\<close>

lemma length_unit_vec: "length (unit_vec x) = ADA_TOKEN_COUNT"
  by (simp add: unit_vec_def ADA_TOKEN_COUNT_def)

lemma l2_distance_unit_vec: "l2_distance (unit_vec a) (unit_vec b) = \<bar>a - b\<bar>"
  by (simp add: l2_distance_def unit_vec_def sum_list_replicate)

lemma example_element_sel:
  "id' (example_element i x c d) = i"
  "embedding (example_element i x c d) = unit_vec x"
  "text' (example_element i x c d) = ''Violets are blue''"
  "category (example_element i x c d) = c"
  "date (example_element i x c d) = d"
  "(example_element i x c d)\<lparr>id' := j\<rparr> = example_element j x c d"
  by (simp_all add: example_element_def)

lemma example_store_eq:
  "example_store =
     \<lparr>rows = [example_element (Some 1) (1/10) ''NarrativeText'' (Some example_now),
      example_element (Some 2) (1/2) ''NarrativeText'' (Some (example_now - 3 * usecs_per_day)),
      example_element (Some 3) (1/20) ''Other'' None,
      example_element (Some 4) (3/10) ''NarrativeText'' (Some (example_now - 43200000000)),
      example_element (Some 5) (1/5) ''Other'' (Some (example_now + 10 * usecs_per_day))],
      next_id = 6\<rparr>"
  by (simp add: example_store_def add_all_commit_def example_items_def insert_row_def
      empty_store_def example_element_sel length_unit_vec)

lemma filtered_example:
  "filtered_nn_stable ''NarrativeText'' (unit_vec 0) 2 example_store =
     Inr [example_element (Some 1) (1/10) ''NarrativeText'' (Some example_now),
          example_element (Some 4) (3/10) ''NarrativeText'' (Some (example_now - 43200000000))]"
  by (simp add: filtered_nn_stable_def example_store_eq length_unit_vec sort_by_def nearer_def
      example_element_sel l2_distance_unit_vec)

lemma add_all_commit_example:
  "add_all_commit empty_store example_items = (None, example_store)"
  by (simp add: example_store_def add_all_commit_def example_items_def insert_row_def
      empty_store_def example_element_sel length_unit_vec)

lemma reachable_example_store: "reachable example_store"
  using reachable.initial add_all_commit_example by (rule reachable.commit)

lemma example_ages:
  "age_days example_now (example_element i x c (Some example_now)) = Some 0"
  "age_days example_now (example_element i x c (Some (example_now - 3 * usecs_per_day))) = Some 3"
  "age_days example_now (example_element i x c None) = None"
  "age_days example_now (example_element i x c (Some (example_now - 43200000000))) = Some 0"
  "age_days example_now (example_element i x c (Some (example_now + 10 * usecs_per_day))) = Some (- 10)"
  by (simp_all add: age_days_def example_element_sel extract_day_def usecs_per_day_def)

lemma decayed_example:
  "decayed_nn_stable decay_rate example_now (unit_vec 0) 2 example_store =
     Inr [decayed_select decay_rate example_now (unit_vec 0) (example_element (Some 3) (1/20) ''Other'' None),
          decayed_select decay_rate example_now (unit_vec 0)
            (example_element (Some 5) (1/5) ''Other'' (Some (example_now + 10 * usecs_per_day)))]"
  by (simp add: decayed_nn_stable_def example_store_eq length_unit_vec sort_by_def higher_def
      decayed_select_def decay_score_def example_ages desc_nulls_first_def decay_expr_def decay_rate_def
      example_element_sel l2_distance_unit_vec)

section \<open>Inserting rows\<close>

lemma insert_row_error: "insert_row s e = Inl err \<Longrightarrow> err = StoreError"
  by (auto simp: insert_row_def split: if_splits option.splits)

lemma insert_row_wrong_dim:
  "length (embedding e) \<noteq> ADA_TOKEN_COUNT \<Longrightarrow> insert_row s e = Inl StoreError"
  by (simp add: insert_row_def)

lemma insert_row_Inr:
  assumes "insert_row s e = Inr s'"
  shows "\<exists>i. rows s' = rows s @ [e\<lparr>id' := Some i\<rparr>] \<and> Some i \<notin> set (map id' (rows s)) \<and>
             length (embedding e) = ADA_TOKEN_COUNT"
proof (cases "id' e")
  case None
  with assms show ?thesis
    by (auto simp: insert_row_def split: if_splits)
next
  case (Some j)
  with assms have stored: "rows s' = rows s @ [e]" "Some j \<notin> set (map id' (rows s))"
    "length (embedding e) = ADA_TOKEN_COUNT"
    by (auto simp: insert_row_def split: if_splits)
  have same: "e\<lparr>id' := Some j\<rparr> = e" using Some by simp
  show ?thesis
    using stored by (intro exI [of _ j]) (simp add: same)
qed

lemma insert_row_inv:
  assumes "insert_row s e = Inr s'" and "store_inv s"
  shows "store_inv s'"
proof -
  from insert_row_Inr [OF assms(1)] obtain i where
    "rows s' = rows s @ [e\<lparr>id' := Some i\<rparr>]" "Some i \<notin> set (map id' (rows s))"
    "length (embedding e) = ADA_TOKEN_COUNT" by blast
  with assms(2) show ?thesis by (auto simp: store_inv_def)
qed

lemma insert_rows_error: "insert_rows s items = Inl err \<Longrightarrow> err = StoreError"
  by (induction items arbitrary: s) (auto split: sum.splits dest: insert_row_error)

lemma insert_rows_wrong_dim:
  "\<exists>e \<in> set items. length (embedding e) \<noteq> ADA_TOKEN_COUNT \<Longrightarrow> insert_rows s items = Inl StoreError"
proof (induction items arbitrary: s)
  case Nil
  then show ?case by simp
next
  case (Cons e es)
  show ?case
  proof (cases "insert_row s e")
    case (Inl err)
    then show ?thesis by (simp add: insert_row_error)
  next
    case (Inr s1)
    then have "length (embedding e) = ADA_TOKEN_COUNT"
      using insert_row_Inr by blast
    with Cons.prems have "\<exists>e \<in> set es. length (embedding e) \<noteq> ADA_TOKEN_COUNT" by auto
    then show ?thesis using Inr Cons.IH by simp
  qed
qed

lemma insert_rows_Inr:
  assumes "insert_rows s items = Inr s'" and "store_inv s"
  shows "store_inv s' \<and> length (rows s') = length (rows s) + length items \<and>
         take (length (rows s)) (rows s') = rows s \<and>
         (\<forall>n < length items. \<exists>i. rows s' ! (length (rows s) + n) = (items ! n)\<lparr>id' := Some i\<rparr>)"
  using assms
proof (induction items arbitrary: s)
  case Nil
  then show ?case by simp
next
  case (Cons e es)
  from Cons.prems(1) obtain s1 where s1: "insert_row s e = Inr s1" and rest: "insert_rows s1 es = Inr s'"
    by (auto split: sum.splits)
  from insert_row_Inr [OF s1] obtain i where rows1: "rows s1 = rows s @ [e\<lparr>id' := Some i\<rparr>]"
    by blast
  have inv1: "store_inv s1" using s1 Cons.prems(2) by (rule insert_row_inv)
  from Cons.IH [OF rest inv1] have inv': "store_inv s'"
    and len: "length (rows s') = length (rows s1) + length es"
    and pre: "take (length (rows s1)) (rows s') = rows s1"
    and nth: "\<forall>n < length es. \<exists>i. rows s' ! (length (rows s1) + n) = (es ! n)\<lparr>id' := Some i\<rparr>"
    by auto
  have len1: "length (rows s1) = Suc (length (rows s))" using rows1 by simp
  have pre_s: "take (length (rows s)) (rows s') = rows s"
  proof -
    have "take (length (rows s)) (rows s') = take (length (rows s)) (take (length (rows s1)) (rows s'))"
      by (simp add: len1 min_def)
    also have "\<dots> = rows s" by (simp only: pre) (simp add: rows1)
    finally show ?thesis .
  qed
  have first: "rows s' ! length (rows s) = e\<lparr>id' := Some i\<rparr>"
  proof -
    have "rows s' ! length (rows s) = take (length (rows s1)) (rows s') ! length (rows s)"
      by (simp add: len1)
    also have "\<dots> = e\<lparr>id' := Some i\<rparr>" by (simp only: pre) (simp add: rows1)
    finally show ?thesis .
  qed
  have "\<exists>i. rows s' ! (length (rows s) + n) = ((e # es) ! n)\<lparr>id' := Some i\<rparr>"
    if "n < length (e # es)" for n
  proof (cases n)
    case 0
    then show ?thesis using first by auto
  next
    case (Suc m)
    with that have "m < length es" by simp
    with nth obtain j where "rows s' ! (length (rows s1) + m) = (es ! m)\<lparr>id' := Some j\<rparr>" by blast
    then show ?thesis using Suc len1 by auto
  qed
  then show ?case using inv' len len1 pre_s by auto
qed

lemma store_inv_empty: "store_inv empty_store"
  by (simp add: store_inv_def empty_store_def)

lemma add_all_commit_inv: "store_inv s \<Longrightarrow> add_all_commit s items = (r, s') \<Longrightarrow> store_inv s'"
  by (auto simp: add_all_commit_def split: sum.splits dest: insert_rows_Inr)

lemma reachable_inv: "reachable s \<Longrightarrow> store_inv s"
  by (induction rule: reachable.induct) (auto intro: store_inv_empty add_all_commit_inv)

lemma find_by_id:
  "distinct (map id' rs) \<Longrightarrow> r \<in> set rs \<Longrightarrow> id' r = Some i \<Longrightarrow>
   find (\<lambda>r. id' r = Some i) rs = Some r"
proof (induction rs)
  case Nil
  then show ?case by simp
next
  case (Cons a rs)
  then show ?case by (cases "a = r") (auto simp: image_iff)
qed

section \<open>Properties of persistence\<close>

text \<open>
  Claim C5: every stored Element has an embedding of dimension 1536, and inserting an
  Element whose embedding has another dimension fails with a store error and leaves the
  store unchanged. The first part holds in every store reached from the empty table by
  commits; the second for every store and every list of items with such an Element in it.
\<close>

theorem embedding_dimension:
  "(reachable s \<longrightarrow> (\<forall>e \<in> set (rows s). length (embedding e) = ADA_TOKEN_COUNT)) \<and>
   ((\<exists>e \<in> set items. length (embedding e) \<noteq> ADA_TOKEN_COUNT) \<longrightarrow>
      add_all_commit s items = (Some StoreError, s))"
proof (intro conjI impI)
  assume "reachable s"
  then have "store_inv s" by (rule reachable_inv)
  then show "\<forall>e \<in> set (rows s). length (embedding e) = ADA_TOKEN_COUNT"
    by (simp add: store_inv_def list_all_iff)
next
  assume "\<exists>e \<in> set items. length (embedding e) \<noteq> ADA_TOKEN_COUNT"
  then have "insert_rows s items = Inl StoreError" by (rule insert_rows_wrong_dim)
  then show "add_all_commit s items = (Some StoreError, s)"
    by (simp add: add_all_commit_def)
qed

theorem embedding_dimension_witness:
  "reachable example_store \<and>
   list_all (\<lambda>e. length (embedding e) = ADA_TOKEN_COUNT) (rows example_store) \<and>
   length (embedding bad_element) = 3 \<and>
   add_all_commit example_store [bad_element] = (Some StoreError, example_store)"
proof -
  have bad: "length (embedding bad_element) = 3"
    by (simp add: bad_element_def)
  then have "\<exists>e \<in> set [bad_element]. length (embedding e) \<noteq> ADA_TOKEN_COUNT"
    by (simp add: ADA_TOKEN_COUNT_def)
  with embedding_dimension [of example_store "[bad_element]"] reachable_example_store bad
  show ?thesis by (simp add: list_all_iff)
qed

text \<open>
  Claim C6: after a successful commit, the row stored for each item has a primary key,
  and reading the row with that key gives the item with only its \<^verbatim>\<open>id\<close> set: text,
  category, filename, subject, date, sent_to, sent_from and embedding are those of the
  item.
\<close>

theorem insert_then_get_by_id:
  assumes "reachable s" and "add_all_commit s items = (None, s')" and "n < length items"
  shows "\<exists>i. id' (rows s' ! (length (rows s) + n)) = Some i \<and>
             get_by_id s' i = Some ((items ! n)\<lparr>id' := Some i\<rparr>)"
proof -
  from assms(2) have ins: "insert_rows s items = Inr s'"
    by (auto simp: add_all_commit_def split: sum.splits)
  from insert_rows_Inr [OF ins reachable_inv [OF assms(1)]] assms(3)
  obtain i where inv: "store_inv s'"
    and len: "length (rows s') = length (rows s) + length items"
    and row: "rows s' ! (length (rows s) + n) = (items ! n)\<lparr>id' := Some i\<rparr>"
    by blast
  have mem: "(items ! n)\<lparr>id' := Some i\<rparr> \<in> set (rows s')"
    using row len assms(3) by (metis add_less_cancel_left nth_mem)
  have "find (\<lambda>r. id' r = Some i) (rows s') = Some ((items ! n)\<lparr>id' := Some i\<rparr>)"
    using inv mem by (intro find_by_id) (simp_all add: store_inv_def)
  then show ?thesis using row by (auto simp: get_by_id_def)
qed
theorem insert_then_get_by_id_witness:
  "reachable empty_store \<and>
   add_all_commit empty_store example_items = (None, example_store) \<and>
   (3::nat) < length example_items \<and>
   (\<exists>i. id' (rows example_store ! (length (rows empty_store) + 3)) = Some i \<and>
        get_by_id example_store i = Some ((example_items ! 3)\<lparr>id' := Some i\<rparr>)) \<and>
   get_by_id example_store 4 =
     Some (example_element (Some 4) (3/10) ''NarrativeText'' (Some (example_now - 43200000000)))"
proof -
  have len: "(3::nat) < length example_items"
    by (simp add: example_items_def)
  have "get_by_id example_store 4 =
     Some (example_element (Some 4) (3/10) ''NarrativeText'' (Some (example_now - 43200000000)))"
    by (simp add: get_by_id_def example_store_eq example_element_sel)
  with insert_then_get_by_id [OF reachable.initial add_all_commit_example len]
    reachable.initial add_all_commit_example len
  show ?thesis by simp
qed

section \<open>Properties of the filtered query\<close>

text \<open>
  Claim C3: for every category \<open>c\<close>, query vector \<open>q\<close> and limit \<open>k\<close>, the filtered
  query has an outcome, and every result it returns holds only stored Elements of
  category \<open>c\<close>, in ascending order of their L2 distance to \<open>q\<close>, and at most \<open>k\<close> of
  them (exactly \<open>k\<close>, or all Elements of the category when there are fewer).
\<close>

theorem filtered_nn_correct:
  "(\<exists>out. filtered_nn c q k s out) \<and>
   (\<forall>res. filtered_nn c q k s (Inr res) \<longrightarrow>
      (\<forall>e \<in> set res. e \<in> set (rows s) \<and> category e = c) \<and>
      sorted (map (\<lambda>e. l2_distance (embedding e) q) res) \<and>
      length res = min k (length (filter (\<lambda>e. category e = c) (rows s))) \<and>
      length res \<le> k)"
proof (intro conjI allI impI)
  show "\<exists>out. filtered_nn c q k s out"
    using filtered_nn_stable_possible by blast
next
  fix res
  assume "filtered_nn c q k s (Inr res)"
  then obtain ys where ys: "order_by (nearer q) (filter (\<lambda>e. category e = c) (rows s)) ys"
    and res: "res = take k ys"
    by (rule filtered_nn_InrE)
  from ys have set_ys: "set ys = set (filter (\<lambda>e. category e = c) (rows s))"
    by (rule order_by_set)
  show "\<forall>e \<in> set res. e \<in> set (rows s) \<and> category e = c"
    using set_ys res by (auto dest: in_set_takeD)
  have "sorted_wrt (nearer q) res"
    using ys res by (simp add: order_by_def)
  then show "sorted (map (\<lambda>e. l2_distance (embedding e) q) res)"
    by (simp add: sorted_map nearer_def [abs_def])
  show "length res = min k (length (filter (\<lambda>e. category e = c) (rows s)))"
    using order_by_length [OF ys] res by simp
  show "length res \<le> k"
    using res by simp
qed

theorem filtered_nn_correct_witness:
  "filtered_nn ''NarrativeText'' (unit_vec 0) 2 example_store
     (Inr [example_element (Some 1) (1/10) ''NarrativeText'' (Some example_now),
          example_element (Some 4) (3/10) ''NarrativeText'' (Some (example_now - 43200000000))]) \<and>
   map category [example_element (Some 1) (1/10) ''NarrativeText'' (Some example_now),
          example_element (Some 4) (3/10) ''NarrativeText'' (Some (example_now - 43200000000))]
     = [''NarrativeText'', ''NarrativeText''] \<and>
   sorted (map (\<lambda>e. l2_distance (embedding e) (unit_vec 0)) [example_element (Some 1) (1/10) ''NarrativeText'' (Some example_now),
          example_element (Some 4) (3/10) ''NarrativeText'' (Some (example_now - 43200000000))]) \<and>
   length [example_element (Some 1) (1/10) ''NarrativeText'' (Some example_now),
          example_element (Some 4) (3/10) ''NarrativeText'' (Some (example_now - 43200000000))] \<le> 2"
proof -
  have run: "filtered_nn ''NarrativeText'' (unit_vec 0) 2 example_store
     (Inr [example_element (Some 1) (1/10) ''NarrativeText'' (Some example_now),
          example_element (Some 4) (3/10) ''NarrativeText'' (Some (example_now - 43200000000))])"
    using filtered_nn_stable_possible [of "''NarrativeText''" "unit_vec 0" 2 example_store]
    by (simp only: filtered_example)
  from filtered_nn_correct [of "''NarrativeText''" "unit_vec 0" 2 example_store] run
  show ?thesis by (auto simp: example_element_sel)
qed

lemma order_by_hd:
  assumes "order_by le xs ys" and "x \<in> set xs" and refl: "\<And>a. le a a"
  shows "ys \<noteq> [] \<and> le (hd ys) x"
proof -
  from assms(1) have "set ys = set xs" by (rule order_by_set)
  with assms(2) have mem: "x \<in> set ys" by simp
  then obtain y rest where ys: "ys = y # rest" by (cases ys) auto
  from assms(1) have "sorted_wrt le ys" by (simp add: order_by_def)
  with ys mem have "le y x" using refl by auto
  with ys show ?thesis by simp
qed

text \<open>
  Claim C4: a stored Element \<open>e\<close> is at distance 0 from its own embedding. When its
  category is the one the query filters on and the limit is positive, the query returns
  a result, every result starts with a row at distance 0, and that row is \<open>e\<close> when no
  other stored row of the category is at distance 0. The order of rows at equal distance
  is not fixed.
\<close>

theorem nearest_of_own_embedding:
  assumes "reachable s" and "e \<in> set (rows s)" and "category e = c" and "0 < k"
  shows "l2_distance (embedding e) (embedding e) = 0 \<and>
         (\<exists>res. filtered_nn c (embedding e) k s (Inr res)) \<and>
         (\<forall>res. filtered_nn c (embedding e) k s (Inr res) \<longrightarrow>
            res \<noteq> [] \<and> l2_distance (embedding (hd res)) (embedding e) = 0 \<and>
            ((\<forall>r \<in> set (rows s). category r = c \<and> r \<noteq> e \<longrightarrow>
                 0 < l2_distance (embedding r) (embedding e)) \<longrightarrow> hd res = e))"
proof (intro conjI allI impI)
  show "l2_distance (embedding e) (embedding e) = 0" by (rule l2_distance_self)
next
  have "length (embedding e) = ADA_TOKEN_COUNT"
    using reachable_inv [OF assms(1)] assms(2) by (simp add: store_inv_def list_all_iff)
  then have "filtered_nn_stable c (embedding e) k s =
      Inr (take k (sort_by (nearer (embedding e)) (filter (\<lambda>e. category e = c) (rows s))))"
    by (simp add: filtered_nn_stable_def)
  with filtered_nn_stable_possible [of c "embedding e" k s]
  show "\<exists>res. filtered_nn c (embedding e) k s (Inr res)" by auto
next
  fix res
  assume run: "filtered_nn c (embedding e) k s (Inr res)"
  then obtain ys where ys: "order_by (nearer (embedding e)) (filter (\<lambda>e. category e = c) (rows s)) ys"
    and res: "res = take k ys"
    by (rule filtered_nn_InrE)
  have cand: "e \<in> set (filter (\<lambda>e. category e = c) (rows s))"
    using assms(2,3) by simp
  have first: "ys \<noteq> [] \<and> nearer (embedding e) (hd ys) e"
    using ys cand by (rule order_by_hd) (simp add: nearer_def)
  with res assms(4) have hd_res: "hd res = hd ys" and ne: "res \<noteq> []"
    by (cases ys; cases k; simp)+
  show "res \<noteq> []" by (rule ne)
  have "l2_distance (embedding (hd ys)) (embedding e) \<le> 0"
    using first by (simp add: nearer_def l2_distance_self)
  then show zero: "l2_distance (embedding (hd res)) (embedding e) = 0"
    using l2_distance_nonneg [of "embedding (hd ys)" "embedding e"] hd_res by simp
  assume others: "\<forall>r \<in> set (rows s). category r = c \<and> r \<noteq> e \<longrightarrow>
                 0 < l2_distance (embedding r) (embedding e)"
  have "hd ys \<in> set ys" using first by simp
  then have "hd ys \<in> set (rows s) \<and> category (hd ys) = c"
    using order_by_set [OF ys] by auto
  with others zero hd_res show "hd res = e" by force
qed

theorem nearest_of_own_embedding_witness:
  "reachable example_store \<and>
   example_element (Some 4) (3/10) ''NarrativeText'' (Some (example_now - 43200000000)) \<in> set (rows example_store) \<and>
   category (example_element (Some 4) (3/10) ''NarrativeText'' (Some (example_now - 43200000000))) = ''NarrativeText'' \<and>
   (0::nat) < 1 \<and>
   filtered_nn ''NarrativeText'' (unit_vec (3/10)) 1 example_store
     (Inr [example_element (Some 4) (3/10) ''NarrativeText'' (Some (example_now - 43200000000))]) \<and>
   l2_distance (embedding (hd [example_element (Some 4) (3/10) ''NarrativeText'' (Some (example_now - 43200000000))]))
     (unit_vec (3/10)) = 0"
proof -
  let ?e = "example_element (Some 4) (3/10) ''NarrativeText'' (Some (example_now - 43200000000))"
  have mem: "?e \<in> set (rows example_store)" by (simp add: example_store_eq)
  have cat: "category ?e = ''NarrativeText''" by (simp add: example_element_sel)
  have "filtered_nn_stable ''NarrativeText'' (unit_vec (3/10)) 1 example_store = Inr [?e]"
    by (simp add: filtered_nn_stable_def example_store_eq length_unit_vec sort_by_def nearer_def
      example_element_sel l2_distance_unit_vec)
  with filtered_nn_stable_possible [of "''NarrativeText''" "unit_vec (3/10)" 1 example_store]
  have run: "filtered_nn ''NarrativeText'' (unit_vec (3/10)) 1 example_store (Inr [?e])" by simp
  have emb: "embedding ?e = unit_vec (3/10)" by (simp add: example_element_sel)
  from nearest_of_own_embedding [OF reachable_example_store mem cat zero_less_one, unfolded emb] run
  have "l2_distance (embedding (hd [?e])) (unit_vec (3/10)) = 0"
    by blast
  with mem cat run reachable_example_store show ?thesis by (simp add: example_element_sel)
qed

text \<open>
  An Element of another category is not returned at all, although the query vector is
  its embedding.
\<close>

theorem other_category_not_returned:
  "example_element (Some 3) (1/20) ''Other'' None \<in> set (rows example_store) \<and>
   filtered_nn ''NarrativeText'' (embedding (example_element (Some 3) (1/20) ''Other'' None)) 5 example_store
     (Inr [example_element (Some 1) (1/10) ''NarrativeText'' (Some example_now),
           example_element (Some 4) (3/10) ''NarrativeText'' (Some (example_now - 43200000000)),
           example_element (Some 2) (1/2) ''NarrativeText'' (Some (example_now - 3 * usecs_per_day))]) \<and>
   example_element (Some 3) (1/20) ''Other'' None \<notin>
     set [example_element (Some 1) (1/10) ''NarrativeText'' (Some example_now),
           example_element (Some 4) (3/10) ''NarrativeText'' (Some (example_now - 43200000000)),
           example_element (Some 2) (1/2) ''NarrativeText'' (Some (example_now - 3 * usecs_per_day))]"
proof -
  have "filtered_nn_stable ''NarrativeText'' (unit_vec (1/20)) 5 example_store =
     Inr [example_element (Some 1) (1/10) ''NarrativeText'' (Some example_now),
           example_element (Some 4) (3/10) ''NarrativeText'' (Some (example_now - 43200000000)),
           example_element (Some 2) (1/2) ''NarrativeText'' (Some (example_now - 3 * usecs_per_day))]"
    by (simp add: filtered_nn_stable_def example_store_eq length_unit_vec sort_by_def nearer_def
      example_element_sel l2_distance_unit_vec)
  with filtered_nn_stable_possible [of "''NarrativeText''" "unit_vec (1/20)" 5 example_store]
  show ?thesis by (simp add: example_store_eq example_element_sel) (simp add: example_element_def)
qed

text \<open>Either order of two rows with equal keys is an order the database may return.\<close>

lemma order_by_tie:
  "le a a \<Longrightarrow> le b b \<Longrightarrow> le a b \<Longrightarrow> le b a \<Longrightarrow> order_by le [a, b] [a, b] \<and> order_by le [a, b] [b, a]"
  by (simp add: order_by_def)

section \<open>Properties of the decayed query\<close>

lemma extract_day_zero: "0 \<le> iv \<Longrightarrow> iv < usecs_per_day \<Longrightarrow> extract_day iv = 0"
  by (simp add: extract_day_def)

lemma extract_day_nonneg: "0 \<le> iv \<Longrightarrow> 0 \<le> extract_day iv"
  by (simp add: extract_day_def usecs_per_day_def)

lemma extract_day_pos: "usecs_per_day \<le> iv \<Longrightarrow> 1 \<le> extract_day iv"
  unfolding extract_day_def usecs_per_day_def by (simp add: pos_imp_zdiv_pos_iff)

lemma decay_expr_le_one:
  assumes "0 \<le> rate" and "0 \<le> days" and "0 \<le> d"
  shows "decay_expr rate days d \<le> 1"
proof -
  have "0 \<le> rate * real_of_int days * d" using assms by simp
  then show ?thesis by (simp add: decay_expr_def)
qed

lemma decay_expr_less_one:
  assumes "0 < rate" and "1 \<le> days" and "0 < d"
  shows "decay_expr rate days d < 1"
proof -
  have "0 < rate * real_of_int days * d" using assms by simp
  then show ?thesis by (simp add: decay_expr_def)
qed

lemma decay_score_old:
  fixes o' :: Element
  assumes "0 < rate" and "date o' = Some t'" and "usecs_per_day \<le> now - t'"
    and "0 < l2_distance (embedding o') q"
  shows "\<exists>sc. decay_score rate now q o' = Some sc \<and> sc < 1"
  using assms extract_day_pos [of "now - t'"]
  by (simp add: decay_score_def age_days_def decay_expr_less_one)

lemma decayed_nn_nth:
  assumes "decayed_nn rate now q k s (Inr res)" and "i < length res"
  shows "res ! i = decayed_select rate now q (fst (res ! i))"
proof -
  from assms(2) have "res ! i \<in> set res" by simp
  from decayed_nn_rows [OF assms(1) this] obtain e where "res ! i = decayed_select rate now q e"
    by blast
  then show ?thesis by (simp add: decayed_select_def)
qed

text \<open>
  The decayed query as it is written: it has an outcome, and every result it returns
  holds, for stored Elements, the Element, its text and its score
  \<open>exp (- \<lambda> \<cdot> age_days \<cdot> d)\<close>, in descending order of the score with the rows
  without a score first, and \<open>k\<close> of them, or all rows when there are fewer.
\<close>

theorem decayed_nn_correct:
  "(\<exists>out. decayed_nn rate now q k s out) \<and>
   (\<forall>res. decayed_nn rate now q k s (Inr res) \<longrightarrow>
      (\<forall>r \<in> set res. \<exists>e \<in> set (rows s). r = (e, text' e, decay_score rate now q e)) \<and>
      sorted_wrt (\<lambda>a b. desc_nulls_first (snd (snd a)) (snd (snd b))) res \<and>
      length res = min k (length (rows s)))"
proof (intro conjI allI impI)
  show "\<exists>out. decayed_nn rate now q k s out"
    using decayed_nn_stable_possible by blast
next
  fix res
  assume run: "decayed_nn rate now q k s (Inr res)"
  then obtain ys where ys: "order_by higher (map (decayed_select rate now q) (rows s)) ys"
    and res: "res = take k ys"
    by (rule decayed_nn_InrE)
  show "\<forall>r \<in> set res. \<exists>e \<in> set (rows s). r = (e, text' e, decay_score rate now q e)"
    using decayed_nn_rows [OF run] by (simp add: decayed_select_def)
  have "sorted_wrt higher res"
    using ys res by (simp add: order_by_def)
  then show "sorted_wrt (\<lambda>a b. desc_nulls_first (snd (snd a)) (snd (snd b))) res"
    by (simp add: higher_def [abs_def])
  show "length res = min k (length (rows s))"
    using order_by_length [OF ys] res by simp
qed

theorem decayed_nn_correct_witness:
  "decayed_nn decay_rate example_now (unit_vec 0) 2 example_store
     (Inr [(example_element (Some 3) (1/20) ''Other'' None, ''Violets are blue'', None),
           (example_element (Some 5) (1/5) ''Other'' (Some (example_now + 10 * usecs_per_day)),
            ''Violets are blue'', Some (exp (1/5 :: real)))]) \<and>
   length [(example_element (Some 3) (1/20) ''Other'' None, ''Violets are blue'', None :: real option),
           (example_element (Some 5) (1/5) ''Other'' (Some (example_now + 10 * usecs_per_day)),
            ''Violets are blue'', Some (exp (1/5 :: real)))] = min 2 (length (rows example_store))"
proof -
  let ?res = "[(example_element (Some 3) (1/20) ''Other'' None, ''Violets are blue'', None),
           (example_element (Some 5) (1/5) ''Other'' (Some (example_now + 10 * usecs_per_day)),
            ''Violets are blue'', Some (exp (1/5 :: real)))]"
  have r3: "decayed_select decay_rate example_now (unit_vec 0) (example_element (Some 3) (1/20) ''Other'' None)
      = (example_element (Some 3) (1/20) ''Other'' None, ''Violets are blue'', None)"
    by (simp add: decayed_select_def decay_score_def example_ages example_element_sel)
  have r5: "decayed_select decay_rate example_now (unit_vec 0)
       (example_element (Some 5) (1/5) ''Other'' (Some (example_now + 10 * usecs_per_day)))
      = (example_element (Some 5) (1/5) ''Other'' (Some (example_now + 10 * usecs_per_day)),
            ''Violets are blue'', Some (exp (1/5)))"
    by (simp add: decayed_select_def decay_score_def example_ages decay_expr_def decay_rate_def
          example_element_sel l2_distance_unit_vec)
  have run: "decayed_nn decay_rate example_now (unit_vec 0) 2 example_store (Inr ?res)"
    using decayed_nn_stable_possible [of decay_rate example_now "unit_vec 0" 2 example_store]
    by (simp only: decayed_example r3 r5)
  from decayed_nn_correct [of decay_rate example_now "unit_vec 0" 2 example_store] run
  have "length ?res = min 2 (length (rows example_store))" by blast
  with run show ?thesis by simp
qed

text \<open>
  Claim C10: for an Element without a date the score expression of the decayed query
  has no value (NULL).
\<close>

theorem decay_score_null_date: "date e = None \<Longrightarrow> decay_score rate now q e = None"
  by (simp add: decay_score_def age_days_def)

theorem decay_score_null_date_witness:
  "date (example_element (Some 3) (1/20) ''Other'' None) = None \<and>
   decay_score decay_rate example_now (unit_vec 0) (example_element (Some 3) (1/20) ''Other'' None) = None"
  using decay_score_null_date [of "example_element (Some 3) (1/20) ''Other'' None"
      decay_rate example_now "unit_vec 0"]
  by (simp add: example_element_sel)

text \<open>
  Claim C9: the age is a whole number of days, so an Element dated less than one whole
  day before now has age 0 and score \<open>exp 0 = 1\<close> whatever its distance. With a
  positive decay rate this is the largest score among the Elements dated at or before
  now, and such an Element stands before every Element that is at least one whole day
  old and at a positive distance, in every result that holds both. (An Element dated a
  whole day or more ahead of now can score above 1.)
\<close>

theorem fresh_elements_score_one:
  assumes "0 < rate" and "date e = Some t" and "0 \<le> now - t" and "now - t < usecs_per_day"
  shows "age_days now e = Some 0 \<and> decay_score rate now q e = Some 1 \<and>
    (\<forall>o' t'. date o' = Some t' \<and> t' \<le> now \<longrightarrow>
        (\<exists>sc. decay_score rate now q o' = Some sc \<and> sc \<le> 1)) \<and>
    (\<forall>o' t'. date o' = Some t' \<and> usecs_per_day \<le> now - t' \<and> 0 < l2_distance (embedding o') q \<longrightarrow>
        (\<exists>sc. decay_score rate now q o' = Some sc \<and> sc < 1)) \<and>
    (\<forall>o' t' k s res i j.
        date o' = Some t' \<and> usecs_per_day \<le> now - t' \<and> 0 < l2_distance (embedding o') q \<and>
        decayed_nn rate now q k s (Inr res) \<and> i < length res \<and> j < length res \<and>
        fst (res ! i) = e \<and> fst (res ! j) = o' \<longrightarrow> i < j)"
proof (intro conjI allI impI)
  show age: "age_days now e = Some 0"
    using assms by (simp add: age_days_def extract_day_zero)
  then show score: "decay_score rate now q e = Some 1"
    by (simp add: decay_score_def decay_expr_def)
  {
    fix o' :: Element and t'
    assume "date o' = Some t' \<and> t' \<le> now"
    then show "\<exists>sc. decay_score rate now q o' = Some sc \<and> sc \<le> 1"
      using assms(1) extract_day_nonneg [of "now - t'"] l2_distance_nonneg [of "embedding o'" q]
      by (simp add: decay_score_def age_days_def decay_expr_le_one)
  }
  {
    fix o' :: Element and t'
    assume "date o' = Some t' \<and> usecs_per_day \<le> now - t' \<and> 0 < l2_distance (embedding o') q"
    then show "\<exists>sc. decay_score rate now q o' = Some sc \<and> sc < 1"
      using assms(1) decay_score_old by blast
  }
  {
    fix o' :: Element and t' k s res i j
    assume a: "date o' = Some t' \<and> usecs_per_day \<le> now - t' \<and> 0 < l2_distance (embedding o') q \<and>
        decayed_nn rate now q k s (Inr res) \<and> i < length res \<and> j < length res \<and>
        fst (res ! i) = e \<and> fst (res ! j) = o'"
    then obtain sc where sc: "decay_score rate now q o' = Some sc" "sc < 1"
      using assms(1) decay_score_old by blast
    from a have run: "decayed_nn rate now q k s (Inr res)" by simp
    have ri: "res ! i = decayed_select rate now q e" and rj: "res ! j = decayed_select rate now q o'"
      using decayed_nn_nth [OF run, of i] decayed_nn_nth [OF run, of j] a by simp_all
    from run obtain ys where "order_by higher (map (decayed_select rate now q) (rows s)) ys"
      and "res = take k ys" by (rule decayed_nn_InrE)
    then have sorted: "sorted_wrt higher res" by (simp add: order_by_def)
    show "i < j"
    proof (rule ccontr)
      assume "\<not> i < j"
      then consider "j = i" | "j < i" by linarith
      then show False
      proof cases
        case 1
        with ri rj have "decay_score rate now q e = decay_score rate now q o'"
          by (simp add: decayed_select_def)
        with score sc show False by simp
      next
        case 2
        with sorted a have "higher (res ! j) (res ! i)"
          by (simp add: sorted_wrt_nth_less)
        with ri rj score sc show False
          by (simp add: higher_def decayed_select_def desc_nulls_first_def)
      qed
    qed
  }
qed

theorem fresh_elements_score_one_witness:
  "(0::real) < decay_rate \<and>
   date (example_element (Some 4) (3/10) ''NarrativeText'' (Some (example_now - 43200000000))) =
     Some (example_now - 43200000000) \<and>
   0 \<le> example_now - (example_now - 43200000000) \<and>
   example_now - (example_now - 43200000000) < usecs_per_day \<and>
   decay_score decay_rate example_now (unit_vec 0)
     (example_element (Some 4) (3/10) ''NarrativeText'' (Some (example_now - 43200000000))) = Some 1 \<and>
   (\<exists>sc. decay_score decay_rate example_now (unit_vec 0)
      (example_element (Some 2) (1/2) ''NarrativeText'' (Some (example_now - 3 * usecs_per_day))) = Some sc \<and> sc < 1)"
proof -
  let ?e = "example_element (Some 4) (3/10) ''NarrativeText'' (Some (example_now - 43200000000))"
  let ?o = "example_element (Some 2) (1/2) ''NarrativeText'' (Some (example_now - 3 * usecs_per_day))"
  have h1: "(0::real) < decay_rate" by (simp add: decay_rate_def)
  have h2: "date ?e = Some (example_now - 43200000000)" by (simp add: example_element_sel)
  have h3: "0 \<le> example_now - (example_now - 43200000000)" by simp
  have h4: "example_now - (example_now - 43200000000) < usecs_per_day" by (simp add: usecs_per_day_def)
  have old: "date ?o = Some (example_now - 3 * usecs_per_day) \<and>
      usecs_per_day \<le> example_now - (example_now - 3 * usecs_per_day) \<and>
      0 < l2_distance (embedding ?o) (unit_vec 0)"
    by (simp add: example_element_sel l2_distance_unit_vec usecs_per_day_def)
  from fresh_elements_score_one [OF h1 h2 h3 h4, of "unit_vec 0"] old
  have "decay_score decay_rate example_now (unit_vec 0) ?e = Some 1 \<and>
        (\<exists>sc. decay_score decay_rate example_now (unit_vec 0) ?o = Some sc \<and> sc < 1)"
    by blast
  with h1 h2 h3 h4 show ?thesis by simp
qed

text \<open>
  The score 1 is not the largest possible one: the Element dated ten days ahead of now
  scores \<open>exp (1/5)\<close>, and with the Element without a date it fills the first two
  places of the decayed query.
\<close>

theorem future_element_scores_above_one:
  "decay_score decay_rate example_now (unit_vec 0)
     (example_element (Some 1) (1/10) ''NarrativeText'' (Some example_now)) = Some 1 \<and>
   decay_score decay_rate example_now (unit_vec 0)
     (example_element (Some 5) (1/5) ''Other'' (Some (example_now + 10 * usecs_per_day))) = Some (exp (1/5)) \<and>
   (1::real) < exp (1/5) \<and>
   decayed_nn decay_rate example_now (unit_vec 0) 2 example_store
     (Inr [decayed_select decay_rate example_now (unit_vec 0) (example_element (Some 3) (1/20) ''Other'' None),
          decayed_select decay_rate example_now (unit_vec 0)
            (example_element (Some 5) (1/5) ''Other'' (Some (example_now + 10 * usecs_per_day)))])"
  using decayed_nn_stable_possible [of decay_rate example_now "unit_vec 0" 2 example_store]
  by (simp add: decayed_example)
     (simp add: decay_score_def example_ages decay_expr_def decay_rate_def example_element_sel
        l2_distance_unit_vec)

text \<open>
  Claim C1: the score of the decayed query. The query computes
  \<open>exp (- \<lambda> \<cdot> age_days \<cdot> d)\<close>, with the distance inside the exponential, where the
  text of the notebook and the specification have \<open>exp (- \<lambda> \<cdot> age_days) \<cdot> d\<close>. For an
  Element dated now at distance 1/10 the first is 1 and the second 1/10.
\<close>

theorem decay_score_distance_in_exponent:
  "decay_score decay_rate example_now (unit_vec 0)
     (example_element (Some 1) (1/10) ''NarrativeText'' (Some example_now)) = Some 1 \<and>
   spec_decay_score decay_rate example_now (unit_vec 0)
     (example_element (Some 1) (1/10) ''NarrativeText'' (Some example_now)) = Some (1/10)"
  by (simp add: decay_score_def spec_decay_score_def example_ages decay_expr_def spec_decay_expr_def
      example_element_sel l2_distance_unit_vec)

text \<open>
  Claim C2: monotonicity of the score. For a positive rate and a positive age the score
  the query computes falls strictly as the distance grows, where the claim has it
  non-decreasing.
\<close>

theorem decay_expr_decreasing_in_distance:
  assumes "0 < rate" and "0 < days" and "d1 < d2"
  shows "decay_expr rate days d2 < decay_expr rate days d1"
proof -
  have "0 < rate * real_of_int days" using assms by simp
  with assms(3) have "rate * real_of_int days * d1 < rate * real_of_int days * d2"
    by (rule mult_strict_left_mono)
  then show ?thesis by (simp add: decay_expr_def)
qed

theorem decay_expr_decreasing_in_distance_witness:
  "(0::real) < decay_rate \<and> (0::int) < 3 \<and> (1/10::real) < 1/2 \<and>
   decay_expr decay_rate 3 (1/2) < decay_expr decay_rate 3 (1/10)"
proof -
  have h: "(0::real) < decay_rate" by (simp add: decay_rate_def)
  from decay_expr_decreasing_in_distance [OF h, of 3 "1/10" "1/2"] h show ?thesis by simp
qed

text \<open>
  In the age the computed score is non-increasing, as is the score of the specification,
  which is non-decreasing in the distance.
\<close>

lemma decay_expr_antimono_age:
  "0 \<le> rate \<Longrightarrow> 0 \<le> d \<Longrightarrow> a1 \<le> a2 \<Longrightarrow> decay_expr rate a2 d \<le> decay_expr rate a1 d"
  by (simp add: decay_expr_def mult_left_mono mult_right_mono)

lemma spec_decay_expr_mono_distance:
  "d1 \<le> d2 \<Longrightarrow> spec_decay_expr rate days d1 \<le> spec_decay_expr rate days d2"
  by (simp add: spec_decay_expr_def mult_left_mono mult_right_mono)

lemma spec_decay_expr_antimono_age:
  "0 \<le> rate \<Longrightarrow> 0 \<le> d \<Longrightarrow> a1 \<le> a2 \<Longrightarrow> spec_decay_expr rate a2 d \<le> spec_decay_expr rate a1 d"
  by (simp add: spec_decay_expr_def mult_left_mono mult_right_mono)

section \<open>Properties of the printed output\<close>

lemma print_filtered_map:
  "print_filtered res out = out @ map (\<lambda>e. [Ident (id' e), Text (text' e)]) res"
  by (induction res arbitrary: out) simp_all

lemma print_decayed_map:
  "print_decayed res out = out @ map (\<lambda>r. [Score (snd (snd r)), Text (fst (snd r))]) res"
  by (induction res arbitrary: out) simp_all

text \<open>
  Claim C8: one line is printed for each result row. A line of the filtered query holds
  the identifier and the text of the row, and none of its results carries a score; a
  line of the decayed query holds the score and the text of the row's Element, and no
  identifier.
\<close>

theorem printed_lines:
  "print_filtered res [] = map (\<lambda>e. [Ident (id' e), Text (text' e)]) res \<and>
   length (print_filtered res []) = length res \<and>
   (decayed_nn rate now q k s (Inr rs) \<longrightarrow>
      print_decayed rs [] =
        map (\<lambda>r. [Score (decay_score rate now q (fst r)), Text (text' (fst r))]) rs \<and>
      length (print_decayed rs []) = length rs)"
proof (intro conjI impI)
  show "print_filtered res [] = map (\<lambda>e. [Ident (id' e), Text (text' e)]) res"
    by (simp add: print_filtered_map)
  show "length (print_filtered res []) = length res"
    by (simp add: print_filtered_map)
next
  assume run: "decayed_nn rate now q k s (Inr rs)"
  have "[Score (snd (snd r)), Text (fst (snd r))] =
        [Score (decay_score rate now q (fst r)), Text (text' (fst r))]" if "r \<in> set rs" for r
    using decayed_nn_rows [OF run that] by (auto simp: decayed_select_def)
  then show "print_decayed rs [] =
        map (\<lambda>r. [Score (decay_score rate now q (fst r)), Text (text' (fst r))]) rs"
    by (simp add: print_decayed_map)
  show "length (print_decayed rs []) = length rs"
    by (simp add: print_decayed_map)
qed

theorem printed_lines_witness:
  "decayed_nn decay_rate example_now (unit_vec 0) 1 example_store
     (Inr [decayed_select decay_rate example_now (unit_vec 0) (example_element (Some 3) (1/20) ''Other'' None)]) \<and>
   print_decayed [decayed_select decay_rate example_now (unit_vec 0) (example_element (Some 3) (1/20) ''Other'' None)] [] =
     [[Score None, Text ''Violets are blue'']] \<and>
   print_filtered [example_element (Some 1) (1/10) ''NarrativeText'' (Some example_now)] [] =
     [[Ident (Some 1), Text ''Violets are blue'']]"
proof -
  let ?row = "decayed_select decay_rate example_now (unit_vec 0) (example_element (Some 3) (1/20) ''Other'' None)"
  have "decayed_nn_stable decay_rate example_now (unit_vec 0) 1 example_store = Inr [?row]"
    by (simp add: decayed_nn_stable_def example_store_eq length_unit_vec sort_by_def higher_def
      decayed_select_def decay_score_def example_ages desc_nulls_first_def decay_expr_def decay_rate_def
      example_element_sel l2_distance_unit_vec)
  with decayed_nn_stable_possible [of decay_rate example_now "unit_vec 0" 1 example_store]
  have d: "decayed_nn decay_rate example_now (unit_vec 0) 1 example_store (Inr [?row])"
    by simp
  from printed_lines [of "[example_element (Some 1) (1/10) ''NarrativeText'' (Some example_now)]"
      decay_rate example_now "unit_vec 0" 1 example_store "[?row]"] d
  show ?thesis
    by (simp add: example_element_sel decayed_select_def decay_score_def example_ages)
qed

text \<open>
  The printed lines are not the triples of identifier, text and score.
\<close>

theorem printed_lines_not_triples:
  "filtered_nn ''NarrativeText'' (unit_vec 0) 1 example_store
     (Inr [example_element (Some 1) (1/10) ''NarrativeText'' (Some example_now)]) \<and>
   print_filtered [example_element (Some 1) (1/10) ''NarrativeText'' (Some example_now)] [] =
     [[Ident (Some 1), Text ''Violets are blue'']] \<and>
   print_filtered [example_element (Some 1) (1/10) ''NarrativeText'' (Some example_now)] [] \<noteq>
     [spec_line (Some 1) ''Violets are blue'' (Some (1/10))] \<and>
   decayed_nn decay_rate example_now (unit_vec 0) 1 example_store
     (Inr [decayed_select decay_rate example_now (unit_vec 0) (example_element (Some 3) (1/20) ''Other'' None)]) \<and>
   print_decayed [decayed_select decay_rate example_now (unit_vec 0) (example_element (Some 3) (1/20) ''Other'' None)] [] =
     [[Score None, Text ''Violets are blue'']] \<and>
   print_decayed [decayed_select decay_rate example_now (unit_vec 0) (example_element (Some 3) (1/20) ''Other'' None)] [] \<noteq>
     [spec_line (Some 3) ''Violets are blue'' None]"
proof -
  have "filtered_nn_stable ''NarrativeText'' (unit_vec 0) 1 example_store =
      Inr [example_element (Some 1) (1/10) ''NarrativeText'' (Some example_now)]"
    by (simp add: filtered_nn_stable_def example_store_eq length_unit_vec sort_by_def nearer_def
      example_element_sel l2_distance_unit_vec)
  with filtered_nn_stable_possible [of "''NarrativeText''" "unit_vec 0" 1 example_store]
  have f: "filtered_nn ''NarrativeText'' (unit_vec 0) 1 example_store
     (Inr [example_element (Some 1) (1/10) ''NarrativeText'' (Some example_now)])" by simp
  have "decayed_nn_stable decay_rate example_now (unit_vec 0) 1 example_store =
     Inr [decayed_select decay_rate example_now (unit_vec 0) (example_element (Some 3) (1/20) ''Other'' None)]"
    by (simp add: decayed_nn_stable_def example_store_eq length_unit_vec sort_by_def higher_def
      decayed_select_def decay_score_def example_ages desc_nulls_first_def decay_expr_def decay_rate_def
      example_element_sel l2_distance_unit_vec)
  with decayed_nn_stable_possible [of decay_rate example_now "unit_vec 0" 1 example_store]
  have d: "decayed_nn decay_rate example_now (unit_vec 0) 1 example_store
     (Inr [decayed_select decay_rate example_now (unit_vec 0) (example_element (Some 3) (1/20) ''Other'' None)])"
    by simp
  show ?thesis
    using f d by (simp add: example_element_sel spec_line_def decayed_select_def decay_score_def example_ages)
qed

section \<open>Properties of ingestion\<close>

lemma ingest_loop_append:
  assumes "\<forall>f \<in> set listing. endswith f ext \<longrightarrow> partition_email (path_join dir f) = Inr (p (path_join dir f))"
  shows "ingest_loop partition_email dir ext listing acc =
         Inr (acc @ concat (map (\<lambda>f. p (path_join dir f)) (filter (\<lambda>f. endswith f ext) listing)))"
  using assms by (induction listing arbitrary: acc) simp_all

lemma ingest_loop_error:
  assumes "ingest_loop partition_email dir ext listing acc = Inl err"
  shows "\<exists>f \<in> set listing. endswith f ext \<and> partition_email (path_join dir f) = Inl err"
  using assms by (induction listing arbitrary: acc) (auto split: if_splits sum.splits)

text \<open>
  Claim C7: when the partitioning function returns a list for every file of the listing
  whose name ends with the extension, ingestion returns the concatenation of these
  lists in the order of the listing. Files with other names are never passed to the
  partitioning function, whatever it would do with them.
\<close>

theorem ingest_matching_files:
  assumes "\<forall>f \<in> set listing. endswith f ext \<longrightarrow>
             partition_email (path_join dir f) = Inr (p (path_join dir f))"
  shows "ingest partition_email dir ext listing =
         Inr (concat (map (\<lambda>f. p (path_join dir f)) (filter (\<lambda>f. endswith f ext) listing)))"
  using ingest_loop_append [OF assms, of "[]"] by (simp add: ingest_def)

lemma example_paths:
  "list_all (\<lambda>f. endswith f ''.eml'' \<longrightarrow>
      example_partition (path_join EXAMPLE_DOCS_DIRECTORY f) = Inr (example_output (path_join EXAMPLE_DOCS_DIRECTORY f)))
    example_listing"
  by (simp add: example_listing_def endswith_def example_partition_def path_join_def
      startswith_def EXAMPLE_DOCS_DIRECTORY_def)

theorem ingest_matching_files_witness:
  "list_all (\<lambda>f. endswith f ''.eml'' \<longrightarrow>
      example_partition (path_join EXAMPLE_DOCS_DIRECTORY f) = Inr (example_output (path_join EXAMPLE_DOCS_DIRECTORY f)))
    example_listing \<and>
   example_partition (path_join EXAMPLE_DOCS_DIRECTORY ''notes.txt'') = Inl PartitionError \<and>
   ingest example_partition EXAMPLE_DOCS_DIRECTORY ''.eml'' example_listing =
     Inr [''Roses are red'', ''Violets are blue'', ''It includes:'']"
proof -
  have hyp: "\<forall>f \<in> set example_listing. endswith f ''.eml'' \<longrightarrow>
      example_partition (path_join EXAMPLE_DOCS_DIRECTORY f) = Inr (example_output (path_join EXAMPLE_DOCS_DIRECTORY f))"
    using example_paths by (simp add: list_all_iff)
  have skipped: "example_partition (path_join EXAMPLE_DOCS_DIRECTORY ''notes.txt'') = Inl PartitionError"
    by (simp add: endswith_def example_partition_def path_join_def
      startswith_def EXAMPLE_DOCS_DIRECTORY_def)
  have "concat (map (\<lambda>f. example_output (path_join EXAMPLE_DOCS_DIRECTORY f))
           (filter (\<lambda>f. endswith f ''.eml'') example_listing)) =
        [''Roses are red'', ''Violets are blue'', ''It includes:'']"
    by (simp add: example_listing_def endswith_def example_output_def path_join_def
      startswith_def EXAMPLE_DOCS_DIRECTORY_def)
  with ingest_matching_files [OF hyp] example_paths skipped show ?thesis by simp
qed

end
